theory Spec2Isabelle
  imports Main "HOL-Library.AList" "HOL-Library.Multiset"
begin

section \<open>EvAdventure turn-based combat: data model\<close>

text \<open>
  Combatants, items and abilities are objects of the game; the combat code only ever
  compares them (\<^verbatim>\<open>==\<close>, \<^verbatim>\<open>in\<close>) and hands them to collaborators, so each is
  modelled by its identity.
\<close>

type_synonym combatant = nat
type_synonym item = nat
type_synonym ability = nat

text \<open>
  The action-dicts of the source, one constructor per \<^verbatim>\<open>"key"\<close> of
  \<^verbatim>\<open>EvAdventureCombatHandler.action_classes\<close>, with the fields each docstring lists.
  The target of \<^verbatim>\<open>use\<close> may be \<^verbatim>\<open>None\<close>.
\<close>

datatype action_dict =
    Hold
  | Attack combatant
  | Stunt combatant combatant bool ability ability
  | UseItem item "combatant option"
  | Wield item
  | Flee

text \<open>
  The errors. \<open>KeyError\<close> and \<open>RuntimeError\<close> are the Python exceptions the handler's own
  statements raise. \<open>UnknownCombatant\<close> is the error the specification names for an
  operation on an unregistered combatant; the source defines no such class and nothing
  below returns it.
\<close>

datatype error = KeyError | RuntimeError | UnknownCombatant

text \<open>
  Calls that leave the handler (messages, hooks on combatants, the script's timer), in the
  order they are made. \<open>Execute\<close> marks a call of \<^verbatim>\<open>action.execute()\<close>.
\<close>

datatype event =
    ForceRepeat
  | Stop
  | Delete
  | CmdsetRemove combatant
  | AtDefeat combatant
  | Execute combatant action_dict
  | MsgStuntAttempt combatant combatant
  | MsgStuntGain combatant combatant bool combatant
  | MsgStuntHold combatant
  | MsgStuntResist combatant combatant
  | MsgRetreat combatant int
  | MsgDefeated combatant
  | MsgFled combatant
  | MsgCombatOver "combatant list" "combatant list" "combatant list"

text \<open>
  What the handler reads from the objects around it: health, the wielded weapon, whether a
  combatant is a player character (\<^verbatim>\<open>inherits_from(comb, EvAdventureCharacter)\<close>), the
  room's \<^verbatim>\<open>allow_pvp\<close> flag, and a seed the collaborators may consume.
\<close>

record world =
  hp :: "combatant \<Rightarrow> int"
  weapon :: "combatant \<Rightarrow> item"
  is_pc :: "combatant \<Rightarrow> bool"
  allow_pvp :: bool
  dice :: nat

text \<open>
  The collaborators the actions call: the item contract (\<^verbatim>\<open>at_pre_use\<close>, \<^verbatim>\<open>use\<close>,
  \<^verbatim>\<open>at_post_use\<close>), \<^verbatim>\<open>rules.dice.opposed_saving_throw\<close>, \<^verbatim>\<open>equipment.move\<close> and the
  \<^verbatim>\<open>at_defeat\<close> hook. They are parameters of the model.
\<close>

record env =
  at_pre_use :: "item \<Rightarrow> combatant \<Rightarrow> combatant option \<Rightarrow> world \<Rightarrow> bool"
  use_weapon :: "item \<Rightarrow> combatant \<Rightarrow> combatant option \<Rightarrow> bool \<Rightarrow> world \<Rightarrow> world"
  use_item :: "item \<Rightarrow> combatant \<Rightarrow> combatant option \<Rightarrow> bool \<Rightarrow> bool \<Rightarrow> world \<Rightarrow> world"
  at_post_use :: "item \<Rightarrow> combatant \<Rightarrow> combatant option \<Rightarrow> world \<Rightarrow> world"
  opposed_saving_throw ::
    "combatant \<Rightarrow> combatant \<Rightarrow> ability \<Rightarrow> ability \<Rightarrow> bool \<Rightarrow> bool \<Rightarrow> world \<Rightarrow> bool \<times> world"
  equipment_move :: "combatant \<Rightarrow> item \<Rightarrow> world \<Rightarrow> world"
  at_defeat :: "combatant \<Rightarrow> world \<Rightarrow> world"

text \<open>
  \<^verbatim>\<open>EvAdventureCombatHandler\<close>. The dicts \<^verbatim>\<open>combatants\<close> and \<^verbatim>\<open>fleeing_combatants\<close> are
  association lists in insertion order; the two matrices are \<^verbatim>\<open>defaultdict(dict)\<close>, a
  map on pairs; \<^verbatim>\<open>ndb.did_action\<close> is \<^verbatim>\<open>None\<close> until something stores it.
  \<^verbatim>\<open>max_action_queue_size\<close> and \<^verbatim>\<open>flee_timeout\<close> are class attributes (1 and 5).
\<close>

record handler =
  turn :: int
  combatants :: "(combatant \<times> action_dict list) list"
  advantage_matrix :: "combatant \<times> combatant \<rightharpoonup> bool"
  disadvantage_matrix :: "combatant \<times> combatant \<rightharpoonup> bool"
  fleeing_combatants :: "(combatant \<times> int) list"
  defeated_combatants :: "combatant list"
  max_action_queue_size :: nat
  flee_timeout :: int
  ndb_did_action :: "combatant list option"
  world :: world
  events :: "event list"

definition emit :: "event \<Rightarrow> handler \<Rightarrow> handler" where
  "emit e h = h\<lparr>events := events h @ [e]\<rparr>"

definition bind_err :: "error + 'a \<Rightarrow> ('a \<Rightarrow> error + 'b) \<Rightarrow> error + 'b" where
  "bind_err r f = (case r of Inl e \<Rightarrow> Inl e | Inr x \<Rightarrow> f x)"

section \<open>Deques and random draws\<close>

text \<open>\<^verbatim>\<open>deque.append\<close> on a deque with \<^verbatim>\<open>maxlen\<close>: a full deque drops its front.\<close>

definition deque_append :: "nat \<Rightarrow> 'a list \<Rightarrow> 'a \<Rightarrow> 'a list" where
  "deque_append maxlen q a =
     (if maxlen = 0 then q
      else if maxlen \<le> length q then tl q @ [a]
      else q @ [a])"

text \<open>\<^verbatim>\<open>deque.rotate(-1)\<close>.\<close>

fun rotate_left :: "'a list \<Rightarrow> 'a list" where
  "rotate_left [] = []"
| "rotate_left (x # xs) = xs @ [x]"

text \<open>
  \<^verbatim>\<open>random.shuffle\<close>: for \<open>i\<close> from the last index down to 1, swap position \<open>i\<close> with a
  position drawn below \<open>i + 1\<close>. The draws are read from a list.
\<close>

definition swap :: "nat \<Rightarrow> nat \<Rightarrow> 'a list \<Rightarrow> 'a list" where
  "swap i j xs = xs[i := xs ! j, j := xs ! i]"

fun shuffle_loop :: "nat \<Rightarrow> nat list \<Rightarrow> 'a list \<Rightarrow> 'a list" where
  "shuffle_loop 0 rs xs = xs"
| "shuffle_loop (Suc k) rs xs =
     shuffle_loop k (tl rs) (swap (Suc k) ((case rs of [] \<Rightarrow> 0 | r # _ \<Rightarrow> r) mod Suc (Suc k)) xs)"

definition shuffle :: "nat list \<Rightarrow> 'a list \<Rightarrow> 'a list" where
  "shuffle rs xs = shuffle_loop (length xs - 1) rs xs"

section \<open>CombatAction: the advantage ledger\<close>

definition give_advantage :: "combatant \<Rightarrow> combatant \<Rightarrow> handler \<Rightarrow> handler" where
  "give_advantage recipient target h =
     h\<lparr>advantage_matrix := (advantage_matrix h)((recipient, target) \<mapsto> True)\<rparr>"

definition give_disadvantage :: "combatant \<Rightarrow> combatant \<Rightarrow> handler \<Rightarrow> handler" where
  "give_disadvantage recipient target h =
     h\<lparr>disadvantage_matrix := (disadvantage_matrix h)((recipient, target) \<mapsto> True)\<rparr>"

definition has_advantage :: "combatant \<Rightarrow> combatant \<Rightarrow> handler \<Rightarrow> bool \<times> handler" where
  "has_advantage recipient target h =
     ((case advantage_matrix h (recipient, target) of None \<Rightarrow> False | Some b \<Rightarrow> b)
        \<or> target \<in> set (map fst (fleeing_combatants h)),
      h\<lparr>advantage_matrix := (advantage_matrix h)((recipient, target) := None)\<rparr>)"

definition has_disadvantage :: "combatant \<Rightarrow> combatant \<Rightarrow> handler \<Rightarrow> bool \<times> handler" where
  "has_disadvantage recipient target h =
     ((case disadvantage_matrix h (recipient, target) of None \<Rightarrow> False | Some b \<Rightarrow> b)
        \<or> recipient \<in> set (map fst (fleeing_combatants h)),
      h\<lparr>disadvantage_matrix := (disadvantage_matrix h)((recipient, target) := None)\<rparr>)"

definition lose_advantage :: "combatant \<Rightarrow> combatant \<Rightarrow> handler \<Rightarrow> handler" where
  "lose_advantage recipient target h =
     h\<lparr>advantage_matrix := (advantage_matrix h)((recipient, target) \<mapsto> False)\<rparr>"

definition lose_disadvantage :: "combatant \<Rightarrow> combatant \<Rightarrow> handler \<Rightarrow> handler" where
  "lose_disadvantage recipient target h =
     h\<lparr>disadvantage_matrix := (disadvantage_matrix h)((recipient, target) \<mapsto> False)\<rparr>"

section \<open>EvAdventureCombatHandler: membership, sides, queues\<close>

definition add_combatant :: "combatant \<Rightarrow> handler \<Rightarrow> bool \<times> handler" where
  "add_combatant c h =
     (if c \<notin> set (map fst (combatants h))
      then (True, h\<lparr>combatants := AList.update c [] (combatants h)\<rparr>)
      else (False, h))"

definition remove_combatant :: "combatant \<Rightarrow> handler \<Rightarrow> handler" where
  "remove_combatant c h =
     emit (CmdsetRemove c) (h\<lparr>combatants := AList.delete c (combatants h)\<rparr>)"

definition get_sides :: "combatant \<Rightarrow> handler \<Rightarrow> combatant list \<times> combatant list" where
  "get_sides c h =
     (if allow_pvp (world h)
      then ([c], filter (\<lambda>comb. comb \<noteq> c) (map fst (combatants h)))
      else
        let pcs = filter (is_pc (world h)) (map fst (combatants h));
            npcs = filter (\<lambda>comb. comb \<notin> set pcs) (map fst (combatants h))
        in if c \<in> set pcs
           then (filter (\<lambda>comb. comb \<noteq> c) pcs, npcs)
           else (filter (\<lambda>comb. comb \<noteq> c) npcs, pcs))"

text \<open>
  \<^verbatim>\<open>queue_action\<close>. \<^verbatim>\<open>self.combatants[combatant]\<close> raises \<^verbatim>\<open>KeyError\<close> for a combatant
  that is not a key. \<^verbatim>\<open>did_action\<close> is a local set built from \<^verbatim>\<open>self.ndb.did_action\<close>;
  the method does not store it.
\<close>

definition queue_action :: "combatant \<Rightarrow> action_dict \<Rightarrow> handler \<Rightarrow> error + handler" where
  "queue_action c a h =
     (case map_of (combatants h) c of
        None \<Rightarrow> Inl KeyError
      | Some q \<Rightarrow>
          let h1 = h\<lparr>combatants :=
                      AList.update c (deque_append (max_action_queue_size h) q a) (combatants h)\<rparr>;
              did_action = List.insert c
                 (remdups (case ndb_did_action h of None \<Rightarrow> [] | Some s \<Rightarrow> s))
          in if length (combatants h1) \<le> length did_action
             then Inr (emit ForceRepeat h1)
             else Inr h1)"

definition get_next_action_dict ::
    "combatant \<Rightarrow> bool \<Rightarrow> handler \<Rightarrow> error + (action_dict \<times> handler)" where
  "get_next_action_dict c rotate_queue h =
     (case map_of (combatants h) c of
        None \<Rightarrow> Inl KeyError
      | Some action_queue \<Rightarrow>
          let a = (case action_queue of [] \<Rightarrow> Hold | x # _ \<Rightarrow> x)
          in Inr (a, if rotate_queue
                     then h\<lparr>combatants :=
                             AList.update c (rotate_left action_queue) (combatants h)\<rparr>
                     else h))"

section \<open>The action classes\<close>

text \<open>
  The ledger reads as \<^verbatim>\<open>CombatActionUseItem\<close> makes them, where the target may be
  \<^verbatim>\<open>None\<close>: no grant is ever stored for \<^verbatim>\<open>None\<close> and \<^verbatim>\<open>None\<close> never flees, so only
  the recipient's own flight counts.
\<close>

definition has_advantage_opt :: "combatant \<Rightarrow> combatant option \<Rightarrow> handler \<Rightarrow> bool \<times> handler" where
  "has_advantage_opt recipient target h =
     (case target of None \<Rightarrow> (False, h) | Some t \<Rightarrow> has_advantage recipient t h)"

definition has_disadvantage_opt :: "combatant \<Rightarrow> combatant option \<Rightarrow> handler \<Rightarrow> bool \<times> handler" where
  "has_disadvantage_opt recipient target h =
     (case target of
        None \<Rightarrow> (recipient \<in> set (map fst (fleeing_combatants h)), h)
      | Some t \<Rightarrow> has_disadvantage recipient t h)"

text \<open>\<^verbatim>\<open>CombatActionAttack.execute\<close>.\<close>

definition attack_execute :: "env \<Rightarrow> combatant \<Rightarrow> combatant \<Rightarrow> handler \<Rightarrow> handler" where
  "attack_execute ev attacker target h =
     (if at_pre_use ev (weapon (world h) attacker) attacker (Some target) (world h)
      then
        let wpn = weapon (world h) attacker;
            (adv, h1) = has_advantage attacker target h;
            h2 = h1\<lparr>world := use_weapon ev wpn attacker (Some target) adv (world h1)\<rparr>
        in h2\<lparr>world := at_post_use ev wpn attacker (Some target) (world h2)\<rparr>
      else h)"

text \<open>The defender of \<^verbatim>\<open>CombatActionStunt.execute\<close>, lines 277 to 283.\<close>

definition stunt_defender :: "combatant \<Rightarrow> combatant \<Rightarrow> bool \<Rightarrow> combatant" where
  "stunt_defender recipient target advantage =
     (if recipient = target then recipient
      else (if advantage then target else recipient))"

text \<open>\<^verbatim>\<open>CombatActionStunt.execute\<close>.\<close>

definition stunt_execute ::
    "env \<Rightarrow> combatant \<Rightarrow> combatant \<Rightarrow> combatant \<Rightarrow> bool \<Rightarrow> ability \<Rightarrow> ability \<Rightarrow> handler
      \<Rightarrow> error + handler" where
  "stunt_execute ev attacker recipient target advantage stunt_type defense_type h =
     (let defender = stunt_defender recipient target advantage;
          (adv, h1) = has_advantage attacker defender h;
          (dis, h2) = has_disadvantage attacker defender h1;
          (is_success, w) =
             opposed_saving_throw ev attacker defender stunt_type defense_type adv dis (world h2);
          h3 = emit (MsgStuntAttempt attacker defender) (h2\<lparr>world := w\<rparr>)
      in if is_success
         then
           let h4 = (if advantage then give_advantage recipient target h3
                     else give_disadvantage recipient target h3);
               h5 = emit (MsgStuntGain attacker recipient advantage target) h4;
               h6 = emit (MsgStuntHold attacker) h5
           in queue_action attacker Hold h6
         else Inr (emit (MsgStuntResist defender attacker) h3))"

text \<open>\<^verbatim>\<open>CombatActionUseItem.execute\<close>.\<close>

definition use_execute ::
    "env \<Rightarrow> combatant \<Rightarrow> item \<Rightarrow> combatant option \<Rightarrow> handler \<Rightarrow> error + handler" where
  "use_execute ev user itm target h =
     queue_action user Hold
       (if at_pre_use ev itm user target (world h)
        then
          let (adv, h1) = has_advantage_opt user target h;
              (dis, h2) = has_disadvantage_opt user target h1;
              h3 = h2\<lparr>world := use_item ev itm user target adv dis (world h2)\<rparr>
          in h3\<lparr>world := at_post_use ev itm user target (world h3)\<rparr>
        else h)"

text \<open>\<^verbatim>\<open>CombatActionWield.execute\<close>.\<close>

definition wield_execute :: "env \<Rightarrow> combatant \<Rightarrow> item \<Rightarrow> handler \<Rightarrow> error + handler" where
  "wield_execute ev c itm h =
     queue_action c Hold (h\<lparr>world := equipment_move ev c itm (world h)\<rparr>)"

text \<open>\<^verbatim>\<open>CombatActionFlee.execute\<close>.\<close>

definition flee_execute :: "combatant \<Rightarrow> handler \<Rightarrow> error + handler" where
  "flee_execute c h =
     (let h1 = (if c \<notin> set (map fst (fleeing_combatants h))
                then h\<lparr>fleeing_combatants := AList.update c (turn h) (fleeing_combatants h)\<rparr>
                else h)
      in case map_of (fleeing_combatants h1) c of
           None \<Rightarrow> Inl KeyError
         | Some started_fleeing \<Rightarrow>
             let time_left = flee_timeout h1 - (turn h1 - started_fleeing)
             in if 0 < time_left then Inr (emit (MsgRetreat c time_left) h1) else Inr h1)"

text \<open>\<^verbatim>\<open>execute\<close> and \<^verbatim>\<open>post_execute\<close> of the class that the action-dict's key selects.\<close>

fun execute :: "env \<Rightarrow> combatant \<Rightarrow> action_dict \<Rightarrow> handler \<Rightarrow> error + handler" where
  "execute ev c Hold h = Inr h"
| "execute ev c (Attack target) h = Inr (attack_execute ev c target h)"
| "execute ev c (Stunt recipient target advantage stunt_type defense_type) h =
     stunt_execute ev c recipient target advantage stunt_type defense_type h"
| "execute ev c (UseItem itm target) h = use_execute ev c itm target h"
| "execute ev c (Wield itm) h = wield_execute ev c itm h"
| "execute ev c Flee h = flee_execute c h"

fun post_execute :: "combatant \<Rightarrow> action_dict \<Rightarrow> handler \<Rightarrow> handler" where
  "post_execute c Flee h = h"
| "post_execute c a h = h\<lparr>fleeing_combatants := AList.delete c (fleeing_combatants h)\<rparr>"

section \<open>EvAdventureCombatHandler: resolving a turn\<close>

definition execute_next_action :: "env \<Rightarrow> combatant \<Rightarrow> handler \<Rightarrow> error + handler" where
  "execute_next_action ev c h =
     bind_err (get_next_action_dict c True h)
       (\<lambda>(a, h1). bind_err (execute ev c a (emit (Execute c a) h1))
          (\<lambda>h2. Inr (post_execute c a h2)))"

text \<open>The loop over the shuffled combatants, lines 722 and 723.\<close>

fun action_loop :: "env \<Rightarrow> combatant list \<Rightarrow> handler \<Rightarrow> error + handler" where
  "action_loop ev [] h = Inr h"
| "action_loop ev (c # cs) h = bind_err (execute_next_action ev c h) (action_loop ev cs)"

text \<open>
  The defeat sweep, lines 726 to 733, over a copy of the keys. \<^verbatim>\<open>pop\<close> without a default
  raises \<^verbatim>\<open>KeyError\<close> on a missing key.
\<close>

fun defeat_sweep :: "env \<Rightarrow> combatant list \<Rightarrow> handler \<Rightarrow> error + handler" where
  "defeat_sweep ev [] h = Inr h"
| "defeat_sweep ev (c # cs) h =
     (if hp (world h) c \<le> 0
      then
        let h1 = emit (AtDefeat c) (h\<lparr>world := at_defeat ev c (world h)\<rparr>)
        in if c \<in> set (map fst (combatants h1))
           then defeat_sweep ev cs
                  (emit (MsgDefeated c)
                     (h1\<lparr>combatants := AList.delete c (combatants h1),
                         defeated_combatants := defeated_combatants h1 @ [c]\<rparr>))
           else Inl KeyError
      else defeat_sweep ev cs h)"

text \<open>The flight sweep, lines 736 to 741, over the items of \<^verbatim>\<open>fleeing_combatants\<close>.\<close>

fun flight_sweep :: "(combatant \<times> int) list \<Rightarrow> handler \<Rightarrow> handler" where
  "flight_sweep [] h = h"
| "flight_sweep ((c, started_fleeing) # rest) h =
     flight_sweep rest
       (if flee_timeout h \<le> turn h - started_fleeing
        then remove_combatant c (emit (MsgFled c) h)
        else h)"

text \<open>
  \<^verbatim>\<open>stop_combat\<close>. The loop iterates over the dict \<^verbatim>\<open>self.combatants\<close> itself while
  \<^verbatim>\<open>remove_combatant\<close> pops from it: a dict iterator compares the dict's size with the
  size it started from each time it is advanced, and raises \<^verbatim>\<open>RuntimeError\<close> when they
  differ. \<open>n\<close> is the size at the start of the loop.
\<close>

fun stop_combat_loop :: "nat \<Rightarrow> combatant list \<Rightarrow> handler \<Rightarrow> error + handler" where
  "stop_combat_loop n [] h =
     (if length (combatants h) \<noteq> n then Inl RuntimeError else Inr h)"
| "stop_combat_loop n (c # cs) h =
     (if length (combatants h) \<noteq> n then Inl RuntimeError
      else stop_combat_loop n cs (remove_combatant c h))"

definition stop_combat :: "handler \<Rightarrow> error + handler" where
  "stop_combat h =
     bind_err (stop_combat_loop (length (combatants h)) (map fst (combatants h)) h)
       (\<lambda>h1. Inr (emit Delete (emit Stop h1)))"

text \<open>
  The victory check, lines 744 to 768. \<open>r\<close> is the draw of \<^verbatim>\<open>random.choice\<close>.
\<close>

definition victory_check :: "nat \<Rightarrow> handler \<Rightarrow> error + handler" where
  "victory_check r h =
     (let (allies, enemies) =
            (if combatants h = [] then ([], [])
             else get_sides (map fst (combatants h) ! (r mod length (combatants h))) h)
      in if enemies = []
         then
           let still_standing = allies;
               knocked_out = filter (\<lambda>comb. 0 < hp (world h) comb) (defeated_combatants h);
               killed = filter (\<lambda>comb. hp (world h) comb \<le> 0) (defeated_combatants h)
           in stop_combat (emit (MsgCombatOver still_standing knocked_out killed) h)
         else Inr h)"

text \<open>
  \<^verbatim>\<open>execute_full_turn\<close>. \<open>rs\<close> are the draws of \<^verbatim>\<open>random.shuffle\<close>, \<open>r\<close> the draw of
  \<^verbatim>\<open>random.choice\<close>.
\<close>

definition execute_full_turn :: "env \<Rightarrow> nat list \<times> nat \<Rightarrow> handler \<Rightarrow> error + handler" where
  "execute_full_turn ev rnd h =
     (let h0 = h\<lparr>turn := turn h + 1\<rparr>;
          order = shuffle (fst rnd) (map fst (combatants h0))
      in bind_err (action_loop ev order h0)
           (\<lambda>h1. bind_err (defeat_sweep ev (map fst (combatants h1)) h1)
              (\<lambda>h2. victory_check (snd rnd) (flight_sweep (fleeing_combatants h2) h2))))"

section \<open>Driving the handler\<close>

text \<open>
  Between two ticks the front ends call \<^verbatim>\<open>queue_action\<close>; a tick calls
  \<^verbatim>\<open>at_repeat\<close>, that is \<^verbatim>\<open>execute_full_turn\<close>. An exception ends the run.
\<close>

fun submit_all :: "(combatant \<times> action_dict) list \<Rightarrow> handler \<Rightarrow> error + handler" where
  "submit_all [] h = Inr h"
| "submit_all ((c, a) # rest) h = bind_err (queue_action c a h) (submit_all rest)"

fun run ::
    "env \<Rightarrow> ((combatant \<times> action_dict) list \<times> (nat list \<times> nat)) list \<Rightarrow> handler
      \<Rightarrow> error + handler" where
  "run ev [] h = Inr h"
| "run ev ((subs, rnd) # rest) h =
     bind_err (submit_all subs h)
       (\<lambda>h1. bind_err (execute_full_turn ev rnd h1) (run ev rest))"

text \<open>The \<^verbatim>\<open>Execute\<close> entries of a log, in order.\<close>

fun executions :: "event list \<Rightarrow> (combatant \<times> action_dict) list" where
  "executions [] = []"
| "executions (Execute c a # es) = (c, a) # executions es"
| "executions (e # es) = executions es"

text \<open>The action \<^verbatim>\<open>get_next_action_dict\<close> yields for a registered combatant.\<close>

definition next_action :: "handler \<Rightarrow> combatant \<Rightarrow> action_dict" where
  "next_action h c =
     (case map_of (combatants h) c of
        None \<Rightarrow> Hold
      | Some q \<Rightarrow> (case q of [] \<Rightarrow> Hold | x # _ \<Rightarrow> x))"

text \<open>
  The defender as the specification words it: the target when recipient and target
  coincide, else the target when advantage is granted, else the recipient.
\<close>

definition spec_stunt_defender :: "combatant \<Rightarrow> combatant \<Rightarrow> bool \<Rightarrow> combatant" where
  "spec_stunt_defender recipient target advantage =
     (if recipient = target then target
      else if advantage then target
      else recipient)"

section \<open>A concrete arena\<close>

text \<open>
  Collaborators for the examples: every item may be used, a weapon takes its own number off
  the target's health, items and hooks change nothing, every stunt succeeds.
\<close>

definition env0 :: env where
  "env0 = \<lparr>at_pre_use = (\<lambda>itm user target w. True),
           use_weapon = (\<lambda>itm user target adv w.
              (case target of None \<Rightarrow> w
               | Some t \<Rightarrow> w\<lparr>hp := (hp w)(t := hp w t - int itm)\<rparr>)),
           use_item = (\<lambda>itm user target adv dis w. w),
           at_post_use = (\<lambda>itm user target w. w),
           opposed_saving_throw = (\<lambda>attacker defender st dt adv dis w. (True, w)),
           equipment_move = (\<lambda>c itm w. w\<lparr>weapon := (weapon w)(c := itm)\<rparr>),
           at_defeat = (\<lambda>c w. w)\<rparr>"

text \<open>Everyone has 10 health and a weapon of strength 10; 1 and 3 are player characters.\<close>

definition world0 :: world where
  "world0 = \<lparr>hp = (\<lambda>c. 10), weapon = (\<lambda>c. 10), is_pc = (\<lambda>c. c = 1 \<or> c = 3),
             allow_pvp = False, dice = 0\<rparr>"

text \<open>A fresh handler with combatants 1, 2 and 3 added, and one with 1 and 2 only.\<close>

definition handler0 :: handler where
  "handler0 = \<lparr>turn = 0, combatants = [(1, []), (2, []), (3, [])],
               advantage_matrix = Map.empty, disadvantage_matrix = Map.empty,
               fleeing_combatants = [], defeated_combatants = [],
               max_action_queue_size = 1, flee_timeout = 5, ndb_did_action = None,
               world = world0, events = []\<rparr>"

definition duel0 :: handler where
  "duel0 = handler0\<lparr>combatants := [(1, []), (2, [])]\<rparr>"


definition brawl0 :: handler where
  "brawl0 = handler0\<lparr>combatants := [(1, [Flee]), (2, [Attack 1]), (3, [])]\<rparr>"

section \<open>Evaluating the model\<close>

lemmas arena_defs = handler0_def duel0_def world0_def env0_def

lemmas handler_defs =
  queue_action_def bind_err_def execute_full_turn_def shuffle_def swap_def
  execute_next_action_def get_next_action_dict_def emit_def deque_append_def
  attack_execute_def has_advantage_def has_disadvantage_def victory_check_def
  get_sides_def stop_combat_def remove_combatant_def Let_def flee_execute_def
  stunt_execute_def stunt_defender_def use_execute_def wield_execute_def
  give_advantage_def give_disadvantage_def has_advantage_opt_def has_disadvantage_opt_def

section \<open>What the steps of a turn preserve\<close>

text \<open>
  The shuffle permutes its argument. Queueing, executing one action, the action loop, the
  two sweeps and the victory check each leave the turn counter and the class attributes
  alone; the lemmas below record, for each of them, what happens to the keys of
  \<^verbatim>\<open>combatants\<close>, to the queues, to \<^verbatim>\<open>fleeing_combatants\<close> and to the log.
\<close>

lemma executions_append: "executions (xs @ ys) = executions xs @ executions ys"
  by (induction xs rule: executions.induct) simp_all

lemma mset_swap_list: "i < length xs \<Longrightarrow> j < length xs \<Longrightarrow> mset (swap i j xs) = mset xs"
  by (simp add: swap_def mset_swap)

lemma length_swap: "length (swap i j xs) = length xs"
  by (simp add: swap_def)

lemma mset_shuffle_loop: "k < length xs \<Longrightarrow> mset (shuffle_loop k rs xs) = mset xs"
proof (induction k arbitrary: rs xs)
  case 0
  then show ?case by simp
next
  case (Suc k)
  have j: "(case rs of [] \<Rightarrow> 0 | r # _ \<Rightarrow> r) mod Suc (Suc k) < length xs"
    using Suc.prems by (meson less_trans_Suc mod_less_divisor not_less_eq zero_less_Suc linorder_not_less order_less_le_trans less_Suc_eq_le)
  show ?case using Suc.prems Suc.IH[of "swap (Suc k) ((case rs of [] \<Rightarrow> 0 | r # _ \<Rightarrow> r) mod Suc (Suc k)) xs" "tl rs"] j
    by (simp add: length_swap mset_swap_list)
qed

lemma mset_shuffle: "mset (shuffle rs xs) = mset xs"
  by (cases xs) (simp_all add: shuffle_def mset_shuffle_loop)

lemma map_of_Some_key: "map_of al k = Some v \<Longrightarrow> k \<in> fst ` set al"
  by (metis domI dom_map_of_conv_image_fst)


lemma queue_action_total:
  "c \<in> set (map fst (combatants h)) \<Longrightarrow> \<exists>h'. queue_action c a h = Inr h'"
  by (auto simp: queue_action_def Let_def map_of_eq_None_iff split: option.splits)

lemmas exec_defs = attack_execute_def stunt_execute_def use_execute_def wield_execute_def
  flee_execute_def has_advantage_def has_disadvantage_def has_advantage_opt_def
  has_disadvantage_opt_def give_advantage_def give_disadvantage_def emit_def Let_def
  queue_action_def

lemma execute_frame:
  assumes "execute ev c a h = Inr h'"
  shows "map fst (combatants h') = map fst (combatants h)"
    and "turn h' = turn h" and "flee_timeout h' = flee_timeout h"
    and "max_action_queue_size h' = max_action_queue_size h"
    and "defeated_combatants h' = defeated_combatants h"
    and "c' \<noteq> c \<Longrightarrow> map_of (combatants h') c' = map_of (combatants h) c'"
    and "\<exists>es. events h' = events h @ es \<and> executions es = []"
    and "a \<noteq> Flee \<Longrightarrow> fleeing_combatants h' = fleeing_combatants h"
    and "a = Flee \<Longrightarrow> combatants h' = combatants h \<and> fleeing_combatants h' =
           (if c \<in> set (map fst (fleeing_combatants h)) then fleeing_combatants h
            else AList.update c (turn h) (fleeing_combatants h))"
  using assms
  by (cases a; auto simp: exec_defs update_keys update_conv'
      split: option.splits if_splits prod.splits dest: map_of_Some_key)+

lemma execute_total:
  assumes "c \<in> set (map fst (combatants h))"
  shows "\<exists>h'. execute ev c a h = Inr h'"
  using assms
  by (cases a; auto simp: exec_defs update_keys update_conv' map_of_eq_None_iff
      split: option.splits if_splits prod.splits dest: map_of_Some_key)

lemma execute_next_action_unfold:
  assumes "execute_next_action ev c h = Inr h'"
  obtains q h2 where "map_of (combatants h) c = Some q"
    and "execute ev c (next_action h c)
           (emit (Execute c (next_action h c))
              (h\<lparr>combatants := AList.update c (rotate_left q) (combatants h)\<rparr>)) = Inr h2"
    and "h' = post_execute c (next_action h c) h2"
  using assms
  by (auto simp: execute_next_action_def get_next_action_dict_def bind_err_def next_action_def
        Let_def split: option.splits sum.splits)

lemma post_execute_fields:
  "combatants (post_execute c a h) = combatants h"
  "turn (post_execute c a h) = turn h"
  "flee_timeout (post_execute c a h) = flee_timeout h"
  "max_action_queue_size (post_execute c a h) = max_action_queue_size h"
  "defeated_combatants (post_execute c a h) = defeated_combatants h"
  "events (post_execute c a h) = events h"
  "world (post_execute c a h) = world h"
  "fleeing_combatants (post_execute c a h) =
     (if a = Flee then fleeing_combatants h else AList.delete c (fleeing_combatants h))"
  by (cases a; simp)+

lemma execute_next_action_frame:
  assumes "execute_next_action ev c h = Inr h'"
  shows "map fst (combatants h') = map fst (combatants h)"
    and "turn h' = turn h" and "flee_timeout h' = flee_timeout h"
    and "max_action_queue_size h' = max_action_queue_size h"
    and "defeated_combatants h' = defeated_combatants h"
    and "c' \<noteq> c \<Longrightarrow> map_of (combatants h') c' = map_of (combatants h) c'"
    and "\<exists>es. events h' = events h @ es \<and> executions es = [(c, next_action h c)]"
    and "c' \<noteq> c \<Longrightarrow> map_of (fleeing_combatants h') c' = map_of (fleeing_combatants h) c'"
    and "distinct (map fst (fleeing_combatants h))
          \<Longrightarrow> distinct (map fst (fleeing_combatants h'))"
    and "next_action h c \<noteq> Flee \<Longrightarrow> map_of (fleeing_combatants h') c = None"
    and "next_action h c = Flee \<Longrightarrow>
           map_of (fleeing_combatants h') c =
             Some (case map_of (fleeing_combatants h) c of None \<Rightarrow> turn h | Some s \<Rightarrow> s) \<and>
           map_of (combatants h') c = map_option rotate_left (map_of (combatants h) c)"
proof -
  from assms obtain q h2 where q: "map_of (combatants h) c = Some q"
    and ex: "execute ev c (next_action h c)
           (emit (Execute c (next_action h c))
              (h\<lparr>combatants := AList.update c (rotate_left q) (combatants h)\<rparr>)) = Inr h2"
    and h': "h' = post_execute c (next_action h c) h2"
    by (rule execute_next_action_unfold)
  let ?h1 = "emit (Execute c (next_action h c))
              (h\<lparr>combatants := AList.update c (rotate_left q) (combatants h)\<rparr>)"
  note fr = execute_frame [OF ex]
  from q have key: "c \<in> fst ` set (combatants h)" by (rule map_of_Some_key)
  show "map fst (combatants h') = map fst (combatants h)"
    using fr(1) key by (simp add: h' post_execute_fields emit_def update_keys)
  show "turn h' = turn h" using fr(2) by (simp add: h' post_execute_fields emit_def)
  show "flee_timeout h' = flee_timeout h"
    using fr(3) by (simp add: h' post_execute_fields emit_def)
  show "max_action_queue_size h' = max_action_queue_size h"
    using fr(4) by (simp add: h' post_execute_fields emit_def)
  show "defeated_combatants h' = defeated_combatants h"
    using fr(5) by (simp add: h' post_execute_fields emit_def)
  show "map_of (combatants h') c' = map_of (combatants h) c'" if "c' \<noteq> c"
    using fr(6) [OF that] that by (simp add: h' post_execute_fields emit_def update_conv')
  from fr(7) obtain es where es: "events h2 = events ?h1 @ es" "executions es = []" by blast
  have "events h' = events h @ (Execute c (next_action h c) # es)"
    using es(1) by (simp add: h' post_execute_fields emit_def)
  moreover have "executions (Execute c (next_action h c) # es) = [(c, next_action h c)]"
    using es(2) by simp
  ultimately show "\<exists>es. events h' = events h @ es \<and> executions es = [(c, next_action h c)]"
    by blast
  have fl_other: "next_action h c \<noteq> Flee \<Longrightarrow>
      fleeing_combatants h' = AList.delete c (fleeing_combatants h)"
    using fr(8) by (simp add: h' post_execute_fields emit_def)
  have fl_flee: "next_action h c = Flee \<Longrightarrow>
      fleeing_combatants h' = (if c \<in> set (map fst (fleeing_combatants h))
         then fleeing_combatants h else AList.update c (turn h) (fleeing_combatants h))"
    using fr(9) by (simp add: h' post_execute_fields emit_def)
  show "map_of (fleeing_combatants h') c' = map_of (fleeing_combatants h) c'" if "c' \<noteq> c"
    using fl_other fl_flee that
    by (cases "next_action h c = Flee") (simp_all add: update_conv' delete_conv')
  show "distinct (map fst (fleeing_combatants h'))"
    if "distinct (map fst (fleeing_combatants h))"
    using fl_other fl_flee that
    by (cases "next_action h c = Flee") (simp_all add: distinct_update distinct_delete)
  show "map_of (fleeing_combatants h') c = None" if "next_action h c \<noteq> Flee"
    using fl_other [OF that] by (simp add: delete_conv')
  show "map_of (fleeing_combatants h') c =
          Some (case map_of (fleeing_combatants h) c of None \<Rightarrow> turn h | Some s \<Rightarrow> s) \<and>
        map_of (combatants h') c = map_option rotate_left (map_of (combatants h) c)"
    if "next_action h c = Flee"
  proof -
    have "combatants h' = AList.update c (rotate_left q) (combatants h)"
      using fr(9) that by (simp add: h' post_execute_fields emit_def)
    then have "map_of (combatants h') c = map_option rotate_left (map_of (combatants h) c)"
      using q by (simp add: update_conv')
    moreover have "map_of (fleeing_combatants h') c =
          Some (case map_of (fleeing_combatants h) c of None \<Rightarrow> turn h | Some s \<Rightarrow> s)"
      using fl_flee [OF that]
      by (auto simp: update_conv' map_of_eq_None_iff split: option.splits
            dest: map_of_Some_key)
    ultimately show ?thesis by simp
  qed
qed

lemma execute_next_action_total:
  assumes "c \<in> set (map fst (combatants h))"
  shows "\<exists>h'. execute_next_action ev c h = Inr h'"
proof -
  from assms obtain q where q: "map_of (combatants h) c = Some q"
    by (metis map_of_eq_None_iff not_Some_eq set_map)
  let ?h1 = "emit (Execute c (next_action h c))
              (h\<lparr>combatants := AList.update c (rotate_left q) (combatants h)\<rparr>)"
  have "c \<in> set (map fst (combatants ?h1))"
    using assms by (simp add: emit_def update_keys)
  then obtain h2 where "execute ev c (next_action h c) ?h1 = Inr h2"
    using execute_total by blast
  then show ?thesis
    using q
    by (simp add: execute_next_action_def get_next_action_dict_def bind_err_def
          next_action_def Let_def)
qed

lemma next_action_cong:
  "map_of (combatants h1) c = map_of (combatants h) c \<Longrightarrow> next_action h1 c = next_action h c"
  by (simp add: next_action_def)

lemma action_loop_Cons:
  assumes "action_loop ev (c # cs) h = Inr h'"
  obtains h1 where "execute_next_action ev c h = Inr h1" and "action_loop ev cs h1 = Inr h'"
  using assms by (auto simp: bind_err_def split: sum.splits)

lemma action_loop_total:
  assumes "set order \<subseteq> set (map fst (combatants h))"
  shows "\<exists>h'. action_loop ev order h = Inr h'"
  using assms
proof (induction order arbitrary: h)
  case Nil
  then show ?case by simp
next
  case (Cons c cs)
  then obtain h1 where h1: "execute_next_action ev c h = Inr h1"
    using execute_next_action_total [of c h ev] by auto
  from execute_next_action_frame(1) [OF h1] Cons.prems
  have "set cs \<subseteq> set (map fst (combatants h1))" by simp
  from Cons.IH [OF this] h1 show ?case by (simp add: bind_err_def)
qed

lemma action_loop_frame_all:
  assumes "action_loop ev order h = Inr h'"
  shows "map fst (combatants h') = map fst (combatants h) \<and>
         turn h' = turn h \<and> flee_timeout h' = flee_timeout h \<and>
         max_action_queue_size h' = max_action_queue_size h \<and>
         defeated_combatants h' = defeated_combatants h \<and>
         (distinct (map fst (fleeing_combatants h))
            \<longrightarrow> distinct (map fst (fleeing_combatants h'))) \<and>
         (\<forall>c. c \<notin> set order \<longrightarrow>
            map_of (combatants h') c = map_of (combatants h) c \<and>
            map_of (fleeing_combatants h') c = map_of (fleeing_combatants h) c)"
  using assms
proof (induction order arbitrary: h)
  case Nil
  then show ?case by simp
next
  case (Cons x xs)
  from Cons.prems obtain h1 where a: "execute_next_action ev x h = Inr h1"
    and b: "action_loop ev xs h1 = Inr h'" by (rule action_loop_Cons)
  note fr = execute_next_action_frame [OF a]
  from Cons.IH [OF b] fr(1-5) fr(9) fr(6) fr(8) show ?case
    by simp
qed


lemma action_loop_executions:
  assumes "action_loop ev order h = Inr h'" and "distinct order"
  shows "\<exists>es. events h' = events h @ es \<and>
           executions es = map (\<lambda>c. (c, next_action h c)) order"
  using assms
proof (induction order arbitrary: h)
  case Nil
  then show ?case by simp
next
  case (Cons x xs)
  from Cons.prems(1) obtain h1 where a: "execute_next_action ev x h = Inr h1"
    and b: "action_loop ev xs h1 = Inr h'" by (rule action_loop_Cons)
  from execute_next_action_frame(7) [OF a] obtain es1
    where es1: "events h1 = events h @ es1" "executions es1 = [(x, next_action h x)]"
    by blast
  from Cons.IH [OF b] Cons.prems(2) obtain es2
    where es2: "events h' = events h1 @ es2"
      "executions es2 = map (\<lambda>c. (c, next_action h1 c)) xs"
    by auto
  have "next_action h1 c = next_action h c" if "c \<in> set xs" for c
  proof -
    from that Cons.prems(2) have "c \<noteq> x" by auto
    from execute_next_action_frame(6) [OF a this] show ?thesis by (rule next_action_cong)
  qed
  then have "map (\<lambda>c. (c, next_action h1 c)) xs = map (\<lambda>c. (c, next_action h c)) xs"
    by simp
  with es1 es2 have "events h' = events h @ (es1 @ es2) \<and>
      executions (es1 @ es2) = map (\<lambda>c. (c, next_action h c)) (x # xs)"
    by (simp add: executions_append)
  then show ?case by blast
qed








lemma set_shuffle: "set (shuffle rs xs) = set xs"
  using mset_shuffle [of rs xs] by (metis set_mset_mset)

lemma distinct_shuffle: "distinct (shuffle rs xs) = distinct xs"
  using mset_shuffle [of rs xs] by (metis mset_eq_imp_distinct_iff)













section \<open>The advantage ledger\<close>

text \<open>
  Claim C8. For a pair \<open>(r, t)\<close> whose target \<open>t\<close> is not fleeing: after
  \<^verbatim>\<open>give_advantage(r, t)\<close> the first \<^verbatim>\<open>has_advantage(r, t)\<close> returns true, and each
  further \<^verbatim>\<open>has_advantage(r, t)\<close> with no grant in between returns false: the read
  pops the entry.
\<close>

theorem ledger_one_shot:
  assumes "t \<notin> set (map fst (fleeing_combatants h))"
  shows "fst (has_advantage r t (give_advantage r t h)) \<and>
         (\<forall>n. \<not> fst (has_advantage r t
                  (((\<lambda>s. snd (has_advantage r t s)) ^^ Suc n) (give_advantage r t h))))"
proof -
  have inv: "advantage_matrix (((\<lambda>s. snd (has_advantage r t s)) ^^ Suc n) g) (r, t) = None
      \<and> fleeing_combatants (((\<lambda>s. snd (has_advantage r t s)) ^^ Suc n) g)
          = fleeing_combatants g" for n g
    by (induction n) (simp_all add: has_advantage_def)
  show ?thesis
    using assms inv [of _ "give_advantage r t h"]
    by (simp add: has_advantage_def give_advantage_def del: funpow.simps)
qed

theorem ledger_one_shot_witness:
  "2 \<notin> set (map fst (fleeing_combatants handler0)) \<and>
   fst (has_advantage 1 2 (give_advantage 1 2 handler0)) \<and>
   \<not> fst (has_advantage 1 2 (snd (has_advantage 1 2 (give_advantage 1 2 handler0))))"
proof -
  have free: "2 \<notin> set (map fst (fleeing_combatants handler0))"
    by (simp add: handler0_def)
  from ledger_one_shot [OF free, of 1] have
    "fst (has_advantage 1 2 (give_advantage 1 2 handler0))" and
    "\<not> fst (has_advantage 1 2
        (((\<lambda>s. snd (has_advantage 1 2 s)) ^^ Suc 0) (give_advantage 1 2 handler0)))"
    by blast+
  with free show ?thesis by simp
qed

text \<open>
  Claim C9. \<^verbatim>\<open>has_advantage(r, t)\<close> returns true whenever \<open>t\<close> is a key of
  \<^verbatim>\<open>fleeing_combatants\<close>, and \<^verbatim>\<open>has_disadvantage(r, t)\<close> returns true whenever \<open>r\<close> is,
  whatever the two matrices hold.
\<close>

theorem fleeing_override:
  "(t \<in> set (map fst (fleeing_combatants h)) \<longrightarrow> fst (has_advantage r t h)) \<and>
   (r \<in> set (map fst (fleeing_combatants h)) \<longrightarrow> fst (has_disadvantage r t h))"
  by (simp add: has_advantage_def has_disadvantage_def)

theorem fleeing_override_witness:
  "1 \<in> set (map fst (fleeing_combatants (handler0\<lparr>fleeing_combatants := [(1, 1)]\<rparr>))) \<and>
   fst (has_advantage 2 1 (lose_advantage 2 1 (handler0\<lparr>fleeing_combatants := [(1, 1)]\<rparr>))) \<and>
   fst (has_disadvantage 1 2 (lose_disadvantage 1 2 (handler0\<lparr>fleeing_combatants := [(1, 1)]\<rparr>)))"
  using
    fleeing_override [where t = 1 and r = 2
      and h = "lose_advantage 2 1 (handler0\<lparr>fleeing_combatants := [(1, 1)]\<rparr>)"]
    fleeing_override [where t = 2 and r = 1
      and h = "lose_disadvantage 1 2 (handler0\<lparr>fleeing_combatants := [(1, 1)]\<rparr>)"]
  by (simp add: lose_advantage_def lose_disadvantage_def)

section \<open>Stunts\<close>

text \<open>
  Claim C7. The defender of a stunt's opposed check is the target when recipient and
  target coincide, else the target when the stunt grants advantage, else the recipient:
  the source's choice equals the specification's, the attempt is announced against that
  defender, and the stunt succeeds exactly when the opposed saving throw against that
  defender does.
\<close>

theorem stunt_defender_choice:
  assumes "stunt_execute ev attacker recipient target advantage st dt h = Inr h'"
  shows "stunt_defender recipient target advantage
           = spec_stunt_defender recipient target advantage \<and>
         events h' ! length (events h)
           = MsgStuntAttempt attacker (spec_stunt_defender recipient target advantage) \<and>
         (MsgStuntHold attacker \<in> set (drop (length (events h)) (events h'))) =
           fst (opposed_saving_throw ev attacker
                  (spec_stunt_defender recipient target advantage) st dt
                  (fst (has_advantage attacker
                          (spec_stunt_defender recipient target advantage) h))
                  (fst (has_disadvantage attacker
                          (spec_stunt_defender recipient target advantage) h))
                  (world h))"
proof -
  have eq: "stunt_defender recipient target advantage
              = spec_stunt_defender recipient target advantage"
    by (simp add: stunt_defender_def spec_stunt_defender_def)
  show ?thesis
    using assms unfolding eq [symmetric]
    by (auto simp: stunt_execute_def has_advantage_def has_disadvantage_def emit_def
          queue_action_def give_advantage_def give_disadvantage_def Let_def nth_append
          spec_stunt_defender_def stunt_defender_def
        split: prod.splits if_splits option.splits)
qed

theorem stunt_defender_choice_witness:
  "\<exists>h'. stunt_execute env0 1 3 2 False 0 0 handler0 = Inr h' \<and>
        stunt_defender 3 2 False = 3 \<and>
        events h' ! length (events handler0) = MsgStuntAttempt 1 3"
proof -
  obtain h' where run: "stunt_execute env0 1 3 2 False 0 0 handler0 = Inr h'"
    by (simp add: arena_defs handler_defs)
  from stunt_defender_choice [OF run] show ?thesis
    using run by (auto simp: spec_stunt_defender_def)
qed

section \<open>Sides\<close>

text \<open>
  Claim C4, evaluated. With \<^verbatim>\<open>allow_pvp\<close> set and combatants 1, 2 and 3 registered,
  \<^verbatim>\<open>get_sides(1)\<close> returns the enemies 2 and 3, and the allies list holds combatant 1
  itself: it is not empty.
\<close>

theorem get_sides_pvp_lists_self_as_ally:
  "get_sides 1 (handler0\<lparr>world := world0\<lparr>allow_pvp := True\<rparr>\<rparr>) = ([1], [2, 3])"
  by (simp add: get_sides_def handler0_def world0_def)

section \<open>Queues\<close>

text \<open>
  Claim C1, evaluated. Combatants 1, 2 and 3 are registered and each calls
  \<^verbatim>\<open>queue_action\<close> once: the three actions are queued, \<^verbatim>\<open>force_repeat\<close> is not
  called (the log stays empty) and \<^verbatim>\<open>ndb.did_action\<close> is still \<^verbatim>\<open>None\<close>.
\<close>

theorem all_submitted_no_force_repeat:
  "submit_all [(1, Flee), (2, Attack 1), (3, Hold)] handler0 =
     Inr (handler0\<lparr>combatants := [(1, [Flee]), (2, [Attack 1]), (3, [Hold])]\<rparr>) \<and>
   events (handler0\<lparr>combatants := [(1, [Flee]), (2, [Attack 1]), (3, [Hold])]\<rparr>) = [] \<and>
   ndb_did_action (handler0\<lparr>combatants := [(1, [Flee]), (2, [Attack 1]), (3, [Hold])]\<rparr>) = None"
  by (simp add: arena_defs handler_defs)

text \<open>
  Claim C5 as stated fails: for combatant 7, not registered, neither \<^verbatim>\<open>queue_action\<close>
  nor \<^verbatim>\<open>get_next_action_dict\<close> signals \<open>UnknownCombatant\<close>.
\<close>

theorem unregistered_not_UnknownCombatant:
  "\<not> (queue_action 7 Hold handler0 = Inl UnknownCombatant \<or>
      get_next_action_dict 7 True handler0 = Inl UnknownCombatant)"
  by (simp add: arena_defs handler_defs)

text \<open>
  Claim C5, amended. For a combatant that is not registered, \<^verbatim>\<open>queue_action\<close> and
  \<^verbatim>\<open>get_next_action_dict\<close> raise Python's \<^verbatim>\<open>KeyError\<close>, which reaches the caller;
  \<^verbatim>\<open>remove_combatant\<close> leaves the combatants as they are.
\<close>

theorem unregistered_raises_KeyError:
  assumes "c \<notin> set (map fst (combatants h))"
  shows "queue_action c a h = Inl KeyError \<and>
         get_next_action_dict c rotate_queue h = Inl KeyError \<and>
         combatants (remove_combatant c h) = combatants h"
proof -
  from assms have "map_of (combatants h) c = None"
    by (simp add: map_of_eq_None_iff)
  moreover from assms have "AList.delete c (combatants h) = combatants h"
    by simp
  ultimately show ?thesis
    by (simp add: queue_action_def get_next_action_dict_def remove_combatant_def emit_def)
qed

theorem unregistered_raises_KeyError_witness:
  "7 \<notin> set (map fst (combatants handler0)) \<and>
   queue_action 7 Hold handler0 = Inl KeyError \<and>
   get_next_action_dict 7 True handler0 = Inl KeyError \<and>
   combatants (remove_combatant 7 handler0) = combatants handler0"
proof -
  have out: "7 \<notin> set (map fst (combatants handler0))"
    by (simp add: handler0_def)
  from unregistered_raises_KeyError [OF out] show ?thesis
    using out by blast
qed

section \<open>Ending the combat\<close>


section \<open>The fleeing set\<close>

text \<open>
  Claim C2, evaluated. In the first run combatant 1 flees and is struck down in the same
  turn; in the second it flees for six turns and escapes. Both times it is no longer a
  combatant after the turn and its entry is still in \<^verbatim>\<open>fleeing_combatants\<close>.
\<close>

theorem fleeing_entry_outlives_combatant:
  "(case run env0 [([(1, Flee), (2, Attack 1)], ([], 0))] handler0 of
      Inl e \<Rightarrow> False
    | Inr h \<Rightarrow> map fst (combatants h) = [2, 3] \<and> fleeing_combatants h = [(1, 1)] \<and>
              defeated_combatants h = [1]) \<and>
   (case run env0 [([(1, Flee)], ([], 0)), ([], ([], 0)), ([], ([], 0)), ([], ([], 0)),
                   ([], ([], 0)), ([], ([], 0))] handler0 of
      Inl e \<Rightarrow> False
    | Inr h \<Rightarrow> turn h = 6 \<and> map fst (combatants h) = [2, 3] \<and>
              fleeing_combatants h = [(1, 1)] \<and> defeated_combatants h = [])"
  by (simp add: arena_defs handler_defs)

section \<open>Flight timing\<close>




section \<open>The action pass\<close>

text \<open>
  Claim C10. In \<^verbatim>\<open>execute_full_turn\<close> the loop over the shuffled combatants returns; the
  shuffled list is a permutation of the combatants registered when the turn begins; the
  calls of \<^verbatim>\<open>execute\<close> the loop makes are, in that order, one per combatant with the
  action at the front of its queue, whatever its health has become; after the loop the keys
  of \<^verbatim>\<open>combatants\<close> and the list of the defeated are as they were before the turn, and
  what remains of the turn is the defeat sweep over those keys, followed by the flight sweep
  and the victory check.
\<close>

theorem every_combatant_acts:
  assumes "distinct (map fst (combatants h))"
  shows "\<exists>h1 es.
      action_loop ev (shuffle rs (map fst (combatants h))) (h\<lparr>turn := turn h + 1\<rparr>) = Inr h1 \<and>
      mset (shuffle rs (map fst (combatants h))) = mset (map fst (combatants h)) \<and>
      events h1 = events h @ es \<and>
      executions es = map (\<lambda>c. (c, next_action h c)) (shuffle rs (map fst (combatants h))) \<and>
      map fst (combatants h1) = map fst (combatants h) \<and>
      defeated_combatants h1 = defeated_combatants h \<and>
      execute_full_turn ev (rs, r) h =
        bind_err (defeat_sweep ev (map fst (combatants h1)) h1)
          (\<lambda>h2. victory_check r (flight_sweep (fleeing_combatants h2) h2))"
proof -
  let ?h0 = "h\<lparr>turn := turn h + 1\<rparr>"
  let ?order = "shuffle rs (map fst (combatants h))"
  have "set ?order \<subseteq> set (map fst (combatants ?h0))" by (simp add: set_shuffle)
  then obtain h1 where al: "action_loop ev ?order ?h0 = Inr h1"
    using action_loop_total by blast
  have d: "distinct ?order" using assms by (simp add: distinct_shuffle)
  from action_loop_executions [OF al d] obtain es where
    es: "events h1 = events ?h0 @ es"
      "executions es = map (\<lambda>c. (c, next_action ?h0 c)) ?order" by blast
  have na: "next_action ?h0 = next_action h" by (rule ext) (simp add: next_action_def)
  note fr = action_loop_frame_all [OF al]
  have "execute_full_turn ev (rs, r) h =
        bind_err (defeat_sweep ev (map fst (combatants h1)) h1)
          (\<lambda>h2. victory_check r (flight_sweep (fleeing_combatants h2) h2))"
    using al by (simp add: execute_full_turn_def bind_err_def Let_def)
  with al es na fr show ?thesis by (simp add: mset_shuffle)
qed

theorem every_combatant_acts_witness:
  "distinct (map fst (combatants brawl0)) \<and>
   shuffle [] (map fst (combatants brawl0)) = [2, 3, 1] \<and>
   (\<exists>h1. action_loop env0 [2, 3, 1] (brawl0\<lparr>turn := 1\<rparr>) = Inr h1 \<and>
      hp (world h1) 1 = 0 \<and>
      executions (events h1) = [(2, Attack 1), (3, Hold), (1, Flee)] \<and>
      map fst (combatants h1) = [1, 2, 3] \<and>
      defeated_combatants h1 = [] \<and>
      (case execute_full_turn env0 ([], 0) brawl0 of
         Inl e \<Rightarrow> False
       | Inr h' \<Rightarrow> map fst (combatants h') = [2, 3] \<and> defeated_combatants h' = [1]))"
proof -
  have d: "distinct (map fst (combatants brawl0))" by (simp add: brawl0_def arena_defs)
  have sh: "shuffle [] (map fst (combatants brawl0)) = [2, 3, 1]"
    by (simp add: brawl0_def arena_defs shuffle_def swap_def numeral_2_eq_2)
  from every_combatant_acts [OF d, of env0 "[]" 0] obtain h1 es where
    al: "action_loop env0 (shuffle [] (map fst (combatants brawl0)))
           (brawl0\<lparr>turn := turn brawl0 + 1\<rparr>) = Inr h1"
    and ev: "events h1 = events brawl0 @ es"
    and ex: "executions es = map (\<lambda>c. (c, next_action brawl0 c))
           (shuffle [] (map fst (combatants brawl0)))"
    and keys: "map fst (combatants h1) = map fst (combatants brawl0)"
    and dc: "defeated_combatants h1 = defeated_combatants brawl0"
    and full: "execute_full_turn env0 ([], 0) brawl0 =
        bind_err (defeat_sweep env0 (map fst (combatants h1)) h1)
          (\<lambda>h2. victory_check 0 (flight_sweep (fleeing_combatants h2) h2))"
    by blast
  have t: "brawl0\<lparr>turn := turn brawl0 + 1\<rparr> = brawl0\<lparr>turn := 1\<rparr>"
    by (simp add: brawl0_def arena_defs)
  from al have al': "action_loop env0 [2, 3, 1] (brawl0\<lparr>turn := 1\<rparr>) = Inr h1"
    unfolding sh t .
  then have hp1: "hp (world h1) 1 = 0"
    by (auto simp: brawl0_def arena_defs handler_defs)
  have exs: "executions (events h1) = [(2, Attack 1), (3, Hold), (1, Flee)]"
    using ev ex unfolding sh by (simp add: brawl0_def arena_defs next_action_def)
  have k: "map fst (combatants h1) = [1, 2, 3]" using keys by (simp add: brawl0_def arena_defs)
  have dd: "defeated_combatants h1 = []" using dc by (simp add: brawl0_def arena_defs)
  have fin: "(case execute_full_turn env0 ([], 0) brawl0 of
         Inl e \<Rightarrow> False
       | Inr h' \<Rightarrow> map fst (combatants h') = [2, 3] \<and> defeated_combatants h' = [1])"
    by (simp add: brawl0_def arena_defs handler_defs)
  from al' hp1 exs k dd fin have
    "action_loop env0 [2, 3, 1] (brawl0\<lparr>turn := 1\<rparr>) = Inr h1 \<and>
      hp (world h1) 1 = 0 \<and>
      executions (events h1) = [(2, Attack 1), (3, Hold), (1, Flee)] \<and>
      map fst (combatants h1) = [1, 2, 3] \<and>
      defeated_combatants h1 = [] \<and>
      (case execute_full_turn env0 ([], 0) brawl0 of
         Inl e \<Rightarrow> False
       | Inr h' \<Rightarrow> map fst (combatants h') = [2, 3] \<and> defeated_combatants h' = [1])"
    by (intro conjI)
  then have "\<exists>h1. action_loop env0 [2, 3, 1] (brawl0\<lparr>turn := 1\<rparr>) = Inr h1 \<and>
      hp (world h1) 1 = 0 \<and>
      executions (events h1) = [(2, Attack 1), (3, Hold), (1, Flee)] \<and>
      map fst (combatants h1) = [1, 2, 3] \<and>
      defeated_combatants h1 = [] \<and>
      (case execute_full_turn env0 ([], 0) brawl0 of
         Inl e \<Rightarrow> False
       | Inr h' \<Rightarrow> map fst (combatants h') = [2, 3] \<and> defeated_combatants h' = [1])"
    by (rule exI)
  with d sh show ?thesis by (intro conjI)
qed

end
